theory Spec2Isabelle
  imports Complex_Main
begin

section \<open>JavaScript values, arrays and plain objects\<close>

text \<open>
  The values the Excel service of \<^verbatim>\<open>tools/api-runner.js\<close> handles. A primitive value is
  undefined, null, a boolean, a number or a string. A number is an IEEE double in the
  source; here it is a rational, with \<open>PNaN\<close> beside it, and both zeros of the source are
  the one \<open>PNum 0\<close> (\<^verbatim>\<open>-0 === 0\<close> holds in JavaScript). A value is a primitive or a
  reference to an array or an object (a date cell, for instance), known by its address.
  An array is a list of values in which an element may be missing: the parser leaves a
  hole where the sheet has a blank cell between others, and \<open>Hole\<close> marks it.
\<close>

datatype prim =
    PUndefined
  | PNull
  | PBool bool
  | PNum rat
  | PNaN
  | PStr string

datatype jsval =
    Prim prim
  | JRef nat
  | Hole

abbreviation JUndefined :: jsval where "JUndefined \<equiv> Prim PUndefined"
abbreviation JNull :: jsval where "JNull \<equiv> Prim PNull"
abbreviation JNum :: "rat \<Rightarrow> jsval" where "JNum r \<equiv> Prim (PNum r)"
abbreviation JStr :: "string \<Rightarrow> jsval" where "JStr s \<equiv> Prim (PStr s)"

text \<open>
  Reading an array by index: out of range, and at a hole, it is \<^verbatim>\<open>undefined\<close>, not an
  error.
\<close>

definition arr_get :: "jsval list \<Rightarrow> nat \<Rightarrow> jsval" where
  "arr_get xs i =
     (if i < length xs then (case xs ! i of Hole \<Rightarrow> JUndefined | v \<Rightarrow> v) else JUndefined)"

text \<open>Decimal digits, for the keys that are array indices and for the sample conversion.\<close>

definition digit_of :: "char \<Rightarrow> nat option" where
  "digit_of c =
     map_of [(CHR ''0'', 0), (CHR ''1'', 1), (CHR ''2'', 2), (CHR ''3'', 3), (CHR ''4'', 4),
             (CHR ''5'', 5), (CHR ''6'', 6), (CHR ''7'', 7), (CHR ''8'', 8), (CHR ''9'', 9)] c"

fun digits_val :: "string \<Rightarrow> nat \<Rightarrow> nat option" where
  "digits_val [] acc = Some acc"
| "digits_val (c # cs) acc =
     (case digit_of c of None \<Rightarrow> None | Some d \<Rightarrow> digits_val cs (10 * acc + d))"

text \<open>
  A plain object (\<^verbatim>\<open>const rowData = {}\<close>): its own properties, in the order in which
  JavaScript lists them (and \<^verbatim>\<open>JSON.stringify\<close> writes them): first the keys that are
  array indices (canonical decimal numerals below \<open>2^32 - 1\<close>), ascending, then the other
  keys in the order of their creation. The values are primitives: the only assignment of
  the source stores a result of the conversion function, which the spec types as number,
  string or null.
\<close>

type_synonym obj = "(string \<times> prim) list"

definition obj_keys :: "obj \<Rightarrow> string list" where
  "obj_keys ob = map fst ob"

definition is_array_index :: "string \<Rightarrow> bool" where
  "is_array_index k =
     (k \<noteq> [] \<and> (k = ''0'' \<or> hd k \<noteq> CHR ''0'') \<and>
      (case digits_val k 0 of None \<Rightarrow> False | Some n \<Rightarrow> n < 4294967295))"

definition index_val :: "string \<Rightarrow> nat" where
  "index_val k = (case digits_val k 0 of None \<Rightarrow> 0 | Some n \<Rightarrow> n)"

text \<open>Assigning to a property the object owns replaces the value where it stands.\<close>

fun obj_replace :: "obj \<Rightarrow> string \<Rightarrow> prim \<Rightarrow> obj" where
  "obj_replace [] k v = []"
| "obj_replace ((k', v') # ps) k v =
     (if k' = k then (k, v) # ps else (k', v') # obj_replace ps k v)"

text \<open>A new array index goes after the smaller indices and before everything else.\<close>

fun insert_index :: "obj \<Rightarrow> string \<Rightarrow> prim \<Rightarrow> obj" where
  "insert_index [] k v = [(k, v)]"
| "insert_index ((k', v') # ps) k v =
     (if is_array_index k' \<and> index_val k' < index_val k
      then (k', v') # insert_index ps k v
      else (k, v) # (k', v') # ps)"

text \<open>
  \<^verbatim>\<open>rowData[k] = v\<close>. The key \<^verbatim>\<open>__proto__\<close> is no property of the object: the assignment
  runs the setter inherited from \<^verbatim>\<open>Object.prototype\<close>, which creates no own property (with
  \<^verbatim>\<open>null\<close> it removes the prototype, with another primitive it does nothing).
\<close>

definition obj_set :: "obj \<Rightarrow> string \<Rightarrow> prim \<Rightarrow> obj" where
  "obj_set ob k v =
     (if k = ''__proto__'' then ob
      else if k \<in> set (obj_keys ob) then obj_replace ob k v
      else if is_array_index k then insert_index ob k v
      else ob @ [(k, v)])"

text \<open>
  \<^verbatim>\<open>item[k]\<close> as the value of the own property, \<^verbatim>\<open>undefined\<close> when the object has none. A
  read of a property the object does not own goes on to its prototype; the source reads
  \<^verbatim>\<open>purchasePrice\<close> and \<^verbatim>\<open>taxRate\<close> only, which \<^verbatim>\<open>Object.prototype\<close> does not have.
\<close>

definition obj_get :: "obj \<Rightarrow> string \<Rightarrow> prim" where
  "obj_get ob k = (case map_of ob k of None \<Rightarrow> PUndefined | Some v \<Rightarrow> v)"

section \<open>The mapping of rows: lines 358 to 375 of the parse handler\<close>

text \<open>
  The module \<^verbatim>\<open>./schemas/materials-mapping\<close> is not among the sources, so its two members are
  parameters here. \<open>fm header\<close> is the entry of the table \<^verbatim>\<open>materialsConfig.fieldMapping\<close>
  under the header (\<open>None\<close> when the table has no entry of its own for it, otherwise the
  canonical field name, a string, as the spec types the table). A header is the cell of
  the first row as it is; the lookup turns it into a property key.
\<close>

type_synonym field_mapping = "jsval \<Rightarrow> string option"

text \<open>
  Modelled from the spec: the table is an ordinary object (the spec calls it a static
  lookup structure, and line 362 reads it with \<^verbatim>\<open>fieldMapping[header]\<close>), so the read
  also finds what every ordinary object inherits from \<^verbatim>\<open>Object.prototype\<close>: its methods
  and, under \<^verbatim>\<open>__proto__\<close>, the prototype itself. \<open>dbField\<close> is therefore a field name of
  the table or one of these inherited members, named by its key.
\<close>

datatype dbfield =
    FieldName string
  | Inherited string

definition object_prototype_members :: "string list" where
  "object_prototype_members =
     [''constructor'', ''__defineGetter__'', ''__defineSetter__'', ''hasOwnProperty'',
      ''__lookupGetter__'', ''__lookupSetter__'', ''isPrototypeOf'', ''propertyIsEnumerable'',
      ''toString'', ''valueOf'', ''__proto__'', ''toLocaleString'']"

text \<open>
  \<^verbatim>\<open>materialsConfig.fieldMapping[header]\<close>, line 362: \<open>None\<close> is \<^verbatim>\<open>undefined\<close>. Only a string
  cell has one of the inherited names as its key. A hole of the header row is no header
  (the loop does not visit it, so the lookup is never made for it): it has no field.
\<close>

definition table_lookup :: "field_mapping \<Rightarrow> jsval \<Rightarrow> dbfield option" where
  "table_lookup fm header =
     (case header of
        Hole \<Rightarrow> None
      | _ \<Rightarrow>
          (case fm header of
             Some f \<Rightarrow> Some (FieldName f)
           | None \<Rightarrow>
               (case header of
                  Prim (PStr s) \<Rightarrow>
                    if s \<in> set object_prototype_members then Some (Inherited s) else None
                | _ \<Rightarrow> None)))"

text \<open>
  Truthiness, as \<^verbatim>\<open>if (dbField)\<close> tests it: the empty string is falsy, a function or an
  object is truthy.
\<close>

definition truthy_str :: "string \<Rightarrow> bool" where
  "truthy_str s = (s \<noteq> [])"

fun truthy_field :: "dbfield \<Rightarrow> bool" where
  "truthy_field (FieldName f) = truthy_str f"
| "truthy_field (Inherited m) = True"

text \<open>
  The property key of \<^verbatim>\<open>rowData[dbField]\<close>: a string is its own key, a function or an
  object is turned into a string, which for a built-in function is its source text as
  Node prints it.
\<close>

fun key_of :: "dbfield \<Rightarrow> string" where
  "key_of (FieldName f) = f"
| "key_of (Inherited m) =
     (if m = ''__proto__'' then ''[object Object]''
      else if m = ''constructor'' then ''function Object() { [native code] }''
      else ''function '' @ m @ ''() { [native code] }'')"

text \<open>
  \<open>cv rawValue dbField\<close> is \<^verbatim>\<open>materialsConfig.convertValue(rawValue, dbField)\<close>, taken as a
  function that returns a primitive value.
\<close>

type_synonym convert_value = "jsval \<Rightarrow> dbfield \<Rightarrow> prim"

text \<open>
  The body of the callback of \<^verbatim>\<open>headers.forEach((header, colIndex) => ...)\<close>, on the
  record built so far.
\<close>

definition column_step ::
  "field_mapping \<Rightarrow> convert_value \<Rightarrow> jsval list \<Rightarrow> obj \<Rightarrow> jsval \<Rightarrow> nat \<Rightarrow> obj" where
  "column_step fm cv row rowData header colIndex =
     (case table_lookup fm header of
        None \<Rightarrow> rowData
      | Some dbField \<Rightarrow>
          if truthy_field dbField
          then (let rawValue = arr_get row colIndex
                in obj_set rowData (key_of dbField) (cv rawValue dbField))
          else rowData)"

text \<open>
  \<^verbatim>\<open>headers.forEach\<close>: the columns from left to right, \<open>colIndex\<close> counting up; the
  callback is not called at a hole.
\<close>

fun forEach_headers ::
  "field_mapping \<Rightarrow> convert_value \<Rightarrow> jsval list \<Rightarrow> jsval list \<Rightarrow> nat \<Rightarrow> obj \<Rightarrow> obj" where
  "forEach_headers fm cv row [] colIndex rowData = rowData"
| "forEach_headers fm cv row (header # rest) colIndex rowData =
     forEach_headers fm cv row rest (Suc colIndex)
       (if header = Hole then rowData
        else column_step fm cv row rowData header colIndex)"

text \<open>The callback of \<^verbatim>\<open>.map((row, rowIndex) => ...)\<close>: the record of one data row.\<close>

definition map_row ::
  "field_mapping \<Rightarrow> convert_value \<Rightarrow> jsval list \<Rightarrow> jsval list \<Rightarrow> obj" where
  "map_row fm cv headers row = forEach_headers fm cv row headers 0 []"

text \<open>
  The callback of \<^verbatim>\<open>.filter(item => ...)\<close>: four strict comparisons,
  \<^verbatim>\<open>item.purchasePrice !== null && item.purchasePrice !== 0 &&
  item.taxRate !== null && item.taxRate !== 0\<close>.
\<close>

definition keep_item :: "obj \<Rightarrow> bool" where
  "keep_item item =
     (obj_get item ''purchasePrice'' \<noteq> PNull \<and> obj_get item ''purchasePrice'' \<noteq> PNum 0 \<and>
      obj_get item ''taxRate'' \<noteq> PNull \<and> obj_get item ''taxRate'' \<noteq> PNum 0)"

text \<open>\<^verbatim>\<open>rows.slice(0, 10).map(...)\<close>: the records before the filter.\<close>

definition mapped_rows ::
  "field_mapping \<Rightarrow> convert_value \<Rightarrow> jsval list \<Rightarrow> jsval list list \<Rightarrow> obj list" where
  "mapped_rows fm cv headers rows = map (map_row fm cv headers) (take 10 rows)"

text \<open>\<^verbatim>\<open>mappedData\<close>: the spec's \<^verbatim>\<open>mapRows(headers, rows, mappingTable, convert)\<close>.\<close>

definition mapRows ::
  "field_mapping \<Rightarrow> convert_value \<Rightarrow> jsval list \<Rightarrow> jsval list list \<Rightarrow> obj list" where
  "mapRows fm cv headers rows = filter keep_item (mapped_rows fm cv headers rows)"

section \<open>A sample configuration\<close>

text \<open>
  Modelled from the spec: the field mapping table and the conversion function of
  \<^verbatim>\<open>./schemas/materials-mapping\<close>, which the sources require and do not contain. The spec
  asks for five fields (product code and product name, strings; purchase price, tax rate
  and purchase price excluding tax, numbers), and the service's start-up message at line
  433 lists their five header labels. The labels are Chinese in the source; the ASCII
  strings below stand for them. These two definitions are used at concrete inputs only:
  every general theorem below holds for any mapping and any conversion function.
\<close>

definition materials_fieldMapping :: field_mapping where
  "materials_fieldMapping header =
     (case header of
        Prim (PStr s) \<Rightarrow>
          map_of [(''product code'', ''productCode''),
                  (''product name'', ''productName''),
                  (''purchase price'', ''purchasePrice''),
                  (''tax rate'', ''taxRate''),
                  (''purchase price excl. tax'', ''purchasePriceExcludingTax'')] s
      | _ \<Rightarrow> None)"

definition numeric_field :: "dbfield \<Rightarrow> bool" where
  "numeric_field d =
     (d = FieldName ''purchasePrice'' \<or> d = FieldName ''taxRate'' \<or>
      d = FieldName ''purchasePriceExcludingTax'')"

definition trim :: "string \<Rightarrow> string" where
  "trim s = rev (dropWhile (\<lambda>c. c = CHR '' '') (rev (dropWhile (\<lambda>c. c = CHR '' '') s)))"

text \<open>An unsigned decimal numeral, with an optional fraction after a point.\<close>

definition parse_number :: "string \<Rightarrow> rat option" where
  "parse_number s =
     (let ip = takeWhile (\<lambda>c. c \<noteq> CHR ''.'') s;
          rest = dropWhile (\<lambda>c. c \<noteq> CHR ''.'') s
      in if ip = [] then None
         else (case digits_val ip 0 of
                 None \<Rightarrow> None
               | Some n \<Rightarrow>
                   (case rest of
                      [] \<Rightarrow> Some (of_nat n)
                    | _ # fp \<Rightarrow>
                        (case digits_val fp 0 of
                           None \<Rightarrow> None
                         | Some m \<Rightarrow> Some (of_nat n + of_nat m / 10 ^ length fp)))))"

fun convert_prim :: "prim \<Rightarrow> dbfield \<Rightarrow> prim" where
  "convert_prim PUndefined d = PNull"
| "convert_prim PNull d = PNull"
| "convert_prim (PNum r) d = PNum r"
| "convert_prim (PStr s) d =
     (if numeric_field d
      then (case parse_number (trim s) of None \<Rightarrow> PNull | Some r \<Rightarrow> PNum r)
      else PStr (trim s))"
| "convert_prim v d = (if numeric_field d then PNull else v)"

fun materials_convertValue :: convert_value where
  "materials_convertValue (Prim v) d = convert_prim v d"
| "materials_convertValue v d = PNull"

text \<open>Concrete inputs for the theorems below.\<close>

definition sample_headers :: "jsval list" where
  "sample_headers =
     [JStr ''product code'', JStr ''product name'', JStr ''purchase price'', JStr ''tax rate'']"

definition twelve_rows :: "jsval list list" where
  "twelve_rows =
     map (\<lambda>n. [JStr ''A'', JStr ''Widget'', JNum (of_nat n), JNum (13 / 100)])
       [1, 2, 3, 4, 5, 6, 7, 8, 9, 10, 11, 12]"

text \<open>A mapping table whose one entry names the empty string.\<close>

definition blank_name_mapping :: field_mapping where
  "blank_name_mapping header = (if header = JStr ''remark'' then Some [] else None)"

text \<open>A mapping table whose one entry names \<^verbatim>\<open>__proto__\<close>.\<close>

definition proto_name_mapping :: field_mapping where
  "proto_name_mapping header = (if header = JStr ''remark'' then Some ''__proto__'' else None)"

section \<open>The parse handler: lines 284 to 413\<close>

text \<open>
  The uploaded file as the body parser hands it over in \<^verbatim>\<open>ctx.request.files.excelFile\<close>
  (the field \<open>file_size\<close> is the source's \<^verbatim>\<open>size\<close>), a parsed sheet with its rows in
  \<^verbatim>\<open>sheet.data\<close>, and the response the handler leaves in \<^verbatim>\<open>ctx\<close>. The messages are
  Chinese sentences in the source; one constructor stands for each.
\<close>

record upload =
  originalFilename :: string
  mimetype :: string
  file_size :: nat
  filepath :: string

record sheet =
  data :: "jsval list list"

datatype message =
    PleaseUploadFile
  | InvalidExcelFile
  | FileTooLarge nat
  | ExcelIsEmpty
  | ErrorMessage string

datatype body =
    ErrorObject bool message
  | MappedData "obj list"

text \<open>
  \<^verbatim>\<open>ctx.request.files\<close>: \<open>FilesUndefined\<close> when the body parser has set no files (the
  request was not a multipart upload), otherwise the object with its field
  \<^verbatim>\<open>excelFile\<close>, which is \<open>None\<close> when the upload has no file under that name.
\<close>

datatype request_files =
    FilesUndefined
  | Files "upload option"

text \<open>
  The files on disk, by path. \<open>ctx_status\<close> is \<open>None\<close> as long as the handler has not
  assigned \<^verbatim>\<open>ctx.status\<close>.
\<close>

type_synonym files = "string \<rightharpoonup> string"

record ctx =
  ctx_status :: "nat option"
  ctx_body :: "body option"
  disk :: files

definition allowedTypes :: "string list" where
  "allowedTypes =
     [''application/vnd.ms-excel'',
      ''application/vnd.openxmlformats-officedocument.spreadsheetml.sheet'',
      ''application/octet-stream'']"

definition lower_char :: "char \<Rightarrow> char" where
  "lower_char c =
     (case map_of (zip ''ABCDEFGHIJKLMNOPQRSTUVWXYZ'' ''abcdefghijklmnopqrstuvwxyz'') c of
        None \<Rightarrow> c
      | Some l \<Rightarrow> l)"

definition ends_with :: "string \<Rightarrow> string \<Rightarrow> bool" where
  "ends_with s suf = (length suf \<le> length s \<and> drop (length s - length suf) s = suf)"

text \<open>The test \<^verbatim>\<open>/\.(xlsx?|csv)$/i.test(file.originalFilename)\<close>.\<close>

definition excel_extension :: "string \<Rightarrow> bool" where
  "excel_extension name =
     (let n = map lower_char name
      in ends_with n ''.xls'' \<or> ends_with n ''.xlsx'' \<or> ends_with n ''.csv'')"

definition isValidExcel :: "upload \<Rightarrow> bool" where
  "isValidExcel file =
     (mimetype file \<in> set allowedTypes \<or> excel_extension (originalFilename file))"

definition maxSize :: nat where
  "maxSize = 10 * 1024 * 1024"

text \<open>
  The clean-up both the success path and the catch branch run:
  \<^verbatim>\<open>if (tempFilePath && fs.existsSync(tempFilePath)) fs.unlinkSync(tempFilePath)\<close>.
  \<open>tempFilePath\<close> is \<open>None\<close> while the variable is still \<^verbatim>\<open>null\<close>.
\<close>

definition cleanup :: "string option \<Rightarrow> files \<Rightarrow> files" where
  "cleanup tempFilePath fs =
     (case tempFilePath of
        None \<Rightarrow> fs
      | Some p \<Rightarrow> if truthy_str p \<and> fs p \<noteq> None then fs(p := None) else fs)"

text \<open>The catch branch, lines 397 to 412.\<close>

definition catch_branch :: "string option \<Rightarrow> string \<Rightarrow> files \<Rightarrow> ctx" where
  "catch_branch tempFilePath error_message fs =
     \<lparr>ctx_status = Some 500,
      ctx_body = Some (ErrorObject False (ErrorMessage error_message)),
      disk = cleanup tempFilePath fs\<rparr>"

text \<open>
  The handler. \<open>xlsx_parse\<close> is \<^verbatim>\<open>xlsx.parse\<close> of the library \<^verbatim>\<open>node-xlsx\<close>, a parameter:
  on the bytes of a file it gives the workbook (\<open>Inr\<close>) or throws (\<open>Inl\<close>, with the
  message of the exception). \<^verbatim>\<open>fs.readFileSync\<close> throws when the path has no file. The
  body parser has stored the upload under \<^verbatim>\<open>./uploads\<close> before the handler runs, so
  \<open>fs\<close> holds the file at \<open>filepath file\<close> on entry (an upload over the parser's own
  limit never reaches the handler). The handler runs the lines in the order of the
  source; each early \<^verbatim>\<open>return\<close> is the result of its branch. Line 290 reads
  \<^verbatim>\<open>ctx.request.files.excelFile\<close> inside the \<^verbatim>\<open>try\<close>: without files it throws a TypeError,
  which the catch branch answers while \<^verbatim>\<open>tempFilePath\<close> is still \<^verbatim>\<open>null\<close>.
\<close>

definition parseExcel ::
  "field_mapping \<Rightarrow> convert_value \<Rightarrow> (string \<Rightarrow> string + sheet list) \<Rightarrow>
   request_files \<Rightarrow> files \<Rightarrow> ctx" where
  "parseExcel fm cv xlsx_parse request_files fs =
     (case request_files of
        FilesUndefined \<Rightarrow>
          catch_branch None
            ''Cannot read properties of undefined (reading excelFile)'' fs
      | Files None \<Rightarrow>
          \<lparr>ctx_status = Some 400, ctx_body = Some (ErrorObject False PleaseUploadFile), disk = fs\<rparr>
      | Files (Some file) \<Rightarrow>
          if \<not> isValidExcel file then
            \<lparr>ctx_status = Some 400, ctx_body = Some (ErrorObject False InvalidExcelFile), disk = fs\<rparr>
          else if file_size file > maxSize then
            \<lparr>ctx_status = Some 400,
             ctx_body = Some (ErrorObject False (FileTooLarge (maxSize div 1024 div 1024))),
             disk = fs\<rparr>
          else
            (let tempFilePath = Some (filepath file) in
             case fs (filepath file) of
               None \<Rightarrow> catch_branch tempFilePath ''ENOENT'' fs
             | Some bytes \<Rightarrow>
                 (case xlsx_parse bytes of
                    Inl error_message \<Rightarrow> catch_branch tempFilePath error_message fs
                  | Inr workbook \<Rightarrow>
                      (case workbook of
                         [] \<Rightarrow>
                           \<lparr>ctx_status = None,
                            ctx_body = Some (ErrorObject False ExcelIsEmpty), disk = fs\<rparr>
                       | sheet # _ \<Rightarrow>
                           (case data sheet of
                              [] \<Rightarrow>
                                \<lparr>ctx_status = None,
                                 ctx_body = Some (ErrorObject False ExcelIsEmpty), disk = fs\<rparr>
                            | headers # rows \<Rightarrow>
                                (let mappedData = mapRows fm cv headers rows
                                 in \<lparr>ctx_status = None,
                                     ctx_body = Some (MappedData mappedData),
                                     disk = cleanup tempFilePath fs\<rparr>))))))"

text \<open>
  The status line the framework sends. Koa is a dependency, not part of the sources; by
  its documentation a response starts with status 404, and assigning a body while no
  status has been assigned makes it 200.
\<close>

definition http_status :: "ctx \<Rightarrow> nat" where
  "http_status c =
     (case ctx_status c of
        Some s \<Rightarrow> s
      | None \<Rightarrow> (case ctx_body c of None \<Rightarrow> 404 | Some _ \<Rightarrow> 200))"

text \<open>Concrete requests for the theorems below.\<close>

definition text_upload :: upload where
  "text_upload =
     \<lparr>originalFilename = ''notes.txt'', mimetype = ''text/plain'', file_size = 120,
      filepath = ''uploads/upload_1.txt''\<rparr>"

definition xlsx_upload :: upload where
  "xlsx_upload =
     \<lparr>originalFilename = ''Materials.XLSX'',
      mimetype = ''application/vnd.openxmlformats-officedocument.spreadsheetml.sheet'',
      file_size = 2048, filepath = ''uploads/upload_2.xlsx''\<rparr>"

text \<open>A parser that finds one sheet without any row in every file.\<close>

definition parse_empty_sheet :: "string \<Rightarrow> string + sheet list" where
  "parse_empty_sheet bytes = Inr [\<lparr>data = []\<rparr>]"

text \<open>A parser that finds one sheet with a header row and two data rows.\<close>

definition parse_two_rows :: "string \<Rightarrow> string + sheet list" where
  "parse_two_rows bytes =
     Inr [\<lparr>data =
       [[JStr ''product code'', JStr ''product name'', JStr ''purchase price'', JStr ''tax rate''],
        [JStr ''A1'', JStr ''Widget'', JNum 10, JNum (13 / 100)],
        [JStr ''A3'', JStr ''Gizmo'', JNum 5, JNum 0]]\<rparr>]"

definition parse_throws :: "string \<Rightarrow> string + sheet list" where
  "parse_throws bytes = Inl ''Unsupported file''"

section \<open>The same lines on a heap\<close>

text \<open>
  Arrays and objects are shared by reference in the source, and a callback could write
  to one of them. To say what the mapper writes, the lines 358 to 375 are modelled a
  second time with the arrays and objects in a heap: a cell per array or object, the
  address its index, \<^verbatim>\<open>{}\<close> and every new array a cell appended at the end. An
  operation returns \<open>None\<close> where the source leaves this model: it throws a TypeError
  (\<^verbatim>\<open>row[colIndex]\<close> on \<^verbatim>\<open>undefined\<close>), or reads what is not an array or a plain object.
\<close>

datatype cell = Arr "jsval list" | Obj obj

type_synonym heap = "cell list"

definition alloc :: "cell \<Rightarrow> heap \<Rightarrow> jsval \<times> heap" where
  "alloc c h = (JRef (length h), h @ [c])"

definition get_arr :: "heap \<Rightarrow> jsval \<Rightarrow> jsval list option" where
  "get_arr h v =
     (case v of
        JRef a \<Rightarrow>
          if a < length h then (case h ! a of Arr xs \<Rightarrow> Some xs | Obj ob \<Rightarrow> None) else None
      | _ \<Rightarrow> None)"

definition get_obj :: "heap \<Rightarrow> jsval \<Rightarrow> obj option" where
  "get_obj h v =
     (case v of
        JRef a \<Rightarrow>
          if a < length h then (case h ! a of Arr xs \<Rightarrow> None | Obj ob \<Rightarrow> Some ob) else None
      | _ \<Rightarrow> None)"

text \<open>\<^verbatim>\<open>target[k] = v\<close> on a plain object.\<close>

definition set_prop :: "jsval \<Rightarrow> string \<Rightarrow> prim \<Rightarrow> heap \<Rightarrow> heap option" where
  "set_prop target k v h =
     (case target of
        JRef a \<Rightarrow>
          (case get_obj h target of
             None \<Rightarrow> None
           | Some ob \<Rightarrow> Some (h[a := Obj (obj_set ob k v)]))
      | _ \<Rightarrow> None)"

text \<open>
  \<^verbatim>\<open>arr.forEach(cb)\<close>: the length is read once, the elements are read from the heap as
  it is when their turn comes, and the callback may change the heap. The callback is not
  called where the array has no element.
\<close>

fun forEach_from ::
  "(jsval \<Rightarrow> nat \<Rightarrow> heap \<Rightarrow> heap option) \<Rightarrow> jsval \<Rightarrow> nat \<Rightarrow> nat \<Rightarrow> heap \<Rightarrow> heap option" where
  "forEach_from cb arr 0 k h = Some h"
| "forEach_from cb arr (Suc n) k h =
     (case get_arr h arr of
        None \<Rightarrow> None
      | Some xs \<Rightarrow>
          (case (if k < length xs \<and> xs ! k \<noteq> Hole then cb (xs ! k) k h else Some h) of
             None \<Rightarrow> None
           | Some h' \<Rightarrow> forEach_from cb arr n (Suc k) h'))"

definition js_forEach ::
  "(jsval \<Rightarrow> nat \<Rightarrow> heap \<Rightarrow> heap option) \<Rightarrow> jsval \<Rightarrow> heap \<Rightarrow> heap option" where
  "js_forEach cb arr h =
     (case get_arr h arr of None \<Rightarrow> None | Some xs \<Rightarrow> forEach_from cb arr (length xs) 0 h)"

text \<open>
  \<^verbatim>\<open>arr.map(cb)\<close>: the same traversal, the results in a new array, which has a hole
  where the array had no element.
\<close>

fun map_from ::
  "(jsval \<Rightarrow> nat \<Rightarrow> heap \<Rightarrow> (jsval \<times> heap) option) \<Rightarrow> jsval \<Rightarrow> nat \<Rightarrow> nat \<Rightarrow>
   jsval list \<Rightarrow> heap \<Rightarrow> (jsval list \<times> heap) option" where
  "map_from cb arr 0 k acc h = Some (acc, h)"
| "map_from cb arr (Suc n) k acc h =
     (case get_arr h arr of
        None \<Rightarrow> None
      | Some xs \<Rightarrow>
          (case (if k < length xs \<and> xs ! k \<noteq> Hole then cb (xs ! k) k h else Some (Hole, h)) of
             None \<Rightarrow> None
           | Some (v, h') \<Rightarrow> map_from cb arr n (Suc k) (acc @ [v]) h'))"

definition js_map ::
  "(jsval \<Rightarrow> nat \<Rightarrow> heap \<Rightarrow> (jsval \<times> heap) option) \<Rightarrow> jsval \<Rightarrow> heap \<Rightarrow>
   (jsval \<times> heap) option" where
  "js_map cb arr h =
     (case get_arr h arr of
        None \<Rightarrow> None
      | Some xs \<Rightarrow>
          (case map_from cb arr (length xs) 0 [] h of
             None \<Rightarrow> None
           | Some (ys, h') \<Rightarrow> Some (alloc (Arr ys) h')))"

text \<open>\<^verbatim>\<open>arr.filter(cb)\<close>: the elements the callback accepts, in a new array.\<close>

fun filter_from ::
  "(jsval \<Rightarrow> heap \<Rightarrow> (bool \<times> heap) option) \<Rightarrow> jsval \<Rightarrow> nat \<Rightarrow> nat \<Rightarrow>
   jsval list \<Rightarrow> heap \<Rightarrow> (jsval list \<times> heap) option" where
  "filter_from cb arr 0 k acc h = Some (acc, h)"
| "filter_from cb arr (Suc n) k acc h =
     (case get_arr h arr of
        None \<Rightarrow> None
      | Some xs \<Rightarrow>
          (case (if k < length xs \<and> xs ! k \<noteq> Hole then cb (xs ! k) h else Some (False, h)) of
             None \<Rightarrow> None
           | Some (keep, h') \<Rightarrow>
               filter_from cb arr n (Suc k) (if keep then acc @ [xs ! k] else acc) h'))"

definition js_filter ::
  "(jsval \<Rightarrow> heap \<Rightarrow> (bool \<times> heap) option) \<Rightarrow> jsval \<Rightarrow> heap \<Rightarrow> (jsval \<times> heap) option" where
  "js_filter cb arr h =
     (case get_arr h arr of
        None \<Rightarrow> None
      | Some xs \<Rightarrow>
          (case filter_from cb arr (length xs) 0 [] h of
             None \<Rightarrow> None
           | Some (ys, h') \<Rightarrow> Some (alloc (Arr ys) h')))"

text \<open>\<^verbatim>\<open>arr.slice(0, end)\<close>: a new array with the first \<open>end\<close> elements.\<close>

definition js_slice0 :: "jsval \<Rightarrow> nat \<Rightarrow> heap \<Rightarrow> (jsval \<times> heap) option" where
  "js_slice0 arr end h =
     (case get_arr h arr of None \<Rightarrow> None | Some xs \<Rightarrow> Some (alloc (Arr (take end xs)) h))"

text \<open>
  The three callbacks of the source. The conversion function receives the raw value and
  the field name and returns a value; it is not given the heap.
\<close>

definition column_callback ::
  "field_mapping \<Rightarrow> convert_value \<Rightarrow> jsval \<Rightarrow> jsval \<Rightarrow> jsval \<Rightarrow> nat \<Rightarrow> heap \<Rightarrow> heap option" where
  "column_callback fm cv row rowData header colIndex h =
     (case table_lookup fm header of
        None \<Rightarrow> Some h
      | Some dbField \<Rightarrow>
          if truthy_field dbField
          then (case get_arr h row of
                  None \<Rightarrow> None
                | Some cells \<Rightarrow>
                    (let rawValue = arr_get cells colIndex
                     in set_prop rowData (key_of dbField) (cv rawValue dbField) h))
          else Some h)"

definition row_callback ::
  "field_mapping \<Rightarrow> convert_value \<Rightarrow> jsval \<Rightarrow> jsval \<Rightarrow> nat \<Rightarrow> heap \<Rightarrow>
   (jsval \<times> heap) option" where
  "row_callback fm cv headers row rowIndex h =
     (let (rowData, h1) = alloc (Obj []) h
      in case js_forEach (column_callback fm cv row rowData) headers h1 of
           None \<Rightarrow> None
         | Some h2 \<Rightarrow> Some (rowData, h2))"

definition item_callback :: "jsval \<Rightarrow> heap \<Rightarrow> (bool \<times> heap) option" where
  "item_callback item h =
     (case get_obj h item of None \<Rightarrow> None | Some ob \<Rightarrow> Some (keep_item ob, h))"

text \<open>\<^verbatim>\<open>rows.slice(0, 10).map(...).filter(...)\<close> on the heap.\<close>

definition mappedData_heap ::
  "field_mapping \<Rightarrow> convert_value \<Rightarrow> jsval \<Rightarrow> jsval \<Rightarrow> heap \<Rightarrow> (jsval \<times> heap) option" where
  "mappedData_heap fm cv headers rows h =
     (case js_slice0 rows 10 h of
        None \<Rightarrow> None
      | Some (sliced, h1) \<Rightarrow>
          (case js_map (row_callback fm cv headers) sliced h1 of
             None \<Rightarrow> None
           | Some (mapped, h2) \<Rightarrow> js_filter item_callback mapped h2))"

text \<open>
  Reading a value back from the heap: an array of arrays as a list of lists, an array of
  objects as a list of objects.
\<close>

definition get_rows :: "heap \<Rightarrow> jsval \<Rightarrow> jsval list list option" where
  "get_rows h v =
     (case get_arr h v of None \<Rightarrow> None | Some xs \<Rightarrow> those (map (get_arr h) xs))"

definition get_objs :: "heap \<Rightarrow> jsval \<Rightarrow> obj list option" where
  "get_objs h v =
     (case get_arr h v of None \<Rightarrow> None | Some xs \<Rightarrow> those (map (get_obj h) xs))"

text \<open>
  A heap with the sheet of the spec's example: cell 0 the header row, cells 1 to 3 the
  data rows, cell 4 the array of the data rows.
\<close>

definition sample_heap :: heap where
  "sample_heap =
     [Arr [JStr ''product code'', JStr ''product name'', JStr ''purchase price'', JStr ''tax rate''],
      Arr [JStr ''A1'', JStr ''Widget'', JNum 10, JNum (13 / 100)],
      Arr [JStr ''A2'', JStr ''Gadget'', JStr '''', JNum (1 / 10)],
      Arr [JStr ''A3'', JStr ''Gizmo'', JNum 5, JNum 0],
      Arr [JRef 1, JRef 2, JRef 3]]"

section \<open>Objects and the column loop\<close>

lemma map_of_obj_replace:
  "k \<in> fst ` set ob \<Longrightarrow> map_of (obj_replace ob k v) = (map_of ob)(k \<mapsto> v)"
proof (induction ob)
  case Nil
  then show ?case by simp
next
  case (Cons p ps)
  obtain k' v' where p: "p = (k', v')" by (cases p)
  show ?case
  proof (cases "k' = k")
    case True
    then show ?thesis by (auto simp: p fun_eq_iff)
  next
    case False
    with Cons.prems p have "k \<in> fst ` set ps" by auto
    from Cons.IH[OF this] False show ?thesis
      by (auto simp: p fun_eq_iff)
  qed
qed

lemma map_of_insert_index:
  "k \<notin> fst ` set ob \<Longrightarrow> map_of (insert_index ob k v) = (map_of ob)(k \<mapsto> v)"
proof (induction ob)
  case Nil
  then show ?case by simp
next
  case (Cons p ps)
  obtain k' v' where p: "p = (k', v')" by (cases p)
  from Cons.prems p have ne: "k' \<noteq> k" and rest: "k \<notin> fst ` set ps" by auto
  from Cons.IH[OF rest] ne show ?case
    by (auto simp: p fun_eq_iff)
qed

lemma map_of_snoc:
  "k \<notin> fst ` set ob \<Longrightarrow> map_of (ob @ [(k, v)]) = (map_of ob)(k \<mapsto> v)"
proof (induction ob)
  case Nil
  then show ?case by simp
next
  case (Cons p ps)
  obtain k' v' where p: "p = (k', v')" by (cases p)
  from Cons.prems p have ne: "k' \<noteq> k" and rest: "k \<notin> fst ` set ps" by auto
  from Cons.IH[OF rest] ne show ?case
    by (auto simp: p fun_eq_iff simp del: map_of_append)
qed

lemma keys_obj_replace:
  "k \<in> fst ` set ob \<Longrightarrow> fst ` set (obj_replace ob k v) = fst ` set ob"
proof (induction ob)
  case Nil
  then show ?case by simp
next
  case (Cons p ps)
  obtain k' v' where p: "p = (k', v')" by (cases p)
  show ?case
  proof (cases "k' = k")
    case True
    then show ?thesis by (simp add: p)
  next
    case False
    with Cons.prems p have "k \<in> fst ` set ps" by auto
    from Cons.IH[OF this] False show ?thesis by (simp add: p)
  qed
qed

lemma keys_insert_index: "fst ` set (insert_index ob k v) = insert k (fst ` set ob)"
proof (induction ob)
  case Nil
  then show ?case by simp
next
  case (Cons p ps)
  obtain k' v' where p: "p = (k', v')" by (cases p)
  from Cons.IH show ?case
    by (simp add: p insert_commute)
qed

lemma obj_set_proto: "obj_set ob ''__proto__'' v = ob"
  by (simp add: obj_set_def)

lemma map_of_obj_set:
  "k \<noteq> ''__proto__'' \<Longrightarrow> map_of (obj_set ob k v) = (map_of ob)(k \<mapsto> v)"
  by (simp add: obj_set_def obj_keys_def map_of_obj_replace map_of_insert_index map_of_snoc
      del: map_of_append)

lemma obj_get_obj_set:
  "obj_get (obj_set ob k v) k' =
   (if k' = k \<and> k \<noteq> ''__proto__'' then v else obj_get ob k')"
  by (cases "k = ''__proto__''") (simp_all add: obj_set_proto obj_get_def map_of_obj_set)

lemma obj_keys_obj_set:
  "set (obj_keys (obj_set ob k v)) =
   (if k = ''__proto__'' then set (obj_keys ob) else insert k (set (obj_keys ob)))"
proof (cases "k = ''__proto__''")
  case True
  then show ?thesis by (simp add: obj_set_proto)
next
  case False
  show ?thesis
  proof (cases "k \<in> fst ` set ob")
    case True
    with False show ?thesis
      by (simp add: obj_set_def obj_keys_def keys_obj_replace insert_absorb)
  next
    case no: False
    with False show ?thesis
      by (simp add: obj_set_def obj_keys_def keys_insert_index)
  qed
qed

lemma obj_get_absent: "k \<notin> set (obj_keys ob) \<Longrightarrow> obj_get ob k = PUndefined"
  by (simp add: obj_get_def obj_keys_def map_of_eq_None_iff[THEN iffD2])

text \<open>
  What a column writes: the key and the field of the assignment at line 366, when the
  guard of line 363 lets it run and the key is a property of the record.
\<close>

lemma table_lookup_hole: "table_lookup fm Hole = None"
  by (simp add: table_lookup_def)

lemma forEach_headers_Cons:
  "forEach_headers fm cv row (header # rest) colIndex rowData =
   forEach_headers fm cv row rest (Suc colIndex)
     (column_step fm cv row rowData header colIndex)"
  by (simp add: column_step_def table_lookup_hole)

declare forEach_headers.simps(2) [simp del]
declare forEach_headers_Cons [simp]

lemma column_step_unmapped:
  "table_lookup fm header = None \<Longrightarrow> column_step fm cv row rowData header colIndex = rowData"
  by (simp add: column_step_def)

lemma column_step_keys:
  "set (obj_keys (column_step fm cv row rowData header colIndex)) =
   set (obj_keys rowData) \<union>
   {k. \<exists>d. table_lookup fm header = Some d \<and> truthy_field d \<and> key_of d = k \<and>
         k \<noteq> ''__proto__''}"
  by (auto simp: column_step_def obj_keys_obj_set split: option.splits)

lemma column_step_get:
  "obj_get (column_step fm cv row rowData header colIndex) k =
   (case table_lookup fm header of
      None \<Rightarrow> obj_get rowData k
    | Some d \<Rightarrow>
        if truthy_field d \<and> key_of d = k \<and> k \<noteq> ''__proto__''
        then cv (arr_get row colIndex) d else obj_get rowData k)"
  by (auto simp: column_step_def obj_get_obj_set split: option.splits)

lemma forEach_headers_append:
  "forEach_headers fm cv row (xs @ ys) c rd =
   forEach_headers fm cv row ys (c + length xs) (forEach_headers fm cv row xs c rd)"
  by (induction xs arbitrary: c rd) simp_all

lemma forEach_headers_keys:
  "set (obj_keys (forEach_headers fm cv row hs c rd)) =
   set (obj_keys rd) \<union>
   {k. \<exists>h \<in> set hs. \<exists>d. table_lookup fm h = Some d \<and> truthy_field d \<and> key_of d = k \<and>
         k \<noteq> ''__proto__''}"
  by (induction hs arbitrary: c rd) (auto simp: column_step_keys)



lemma forEach_headers_get_some:
  "\<exists>h \<in> set hs. \<exists>d. table_lookup fm h = Some d \<and> truthy_field d \<and> key_of d = k \<Longrightarrow>
   k \<noteq> ''__proto__'' \<Longrightarrow>
   \<exists>j d. j < length hs \<and> table_lookup fm (hs ! j) = Some d \<and> truthy_field d \<and> key_of d = k \<and>
     (\<forall>n. j < n \<and> n < length hs \<longrightarrow>
        (\<forall>d'. table_lookup fm (hs ! n) = Some d' \<and> truthy_field d' \<longrightarrow> key_of d' \<noteq> k)) \<and>
     obj_get (forEach_headers fm cv row hs c rd) k = cv (arr_get row (c + j)) d"
proof (induction hs rule: rev_induct)
  case Nil
  then show ?case by simp
next
  case (snoc h hs)
  show ?case
  proof (cases "\<exists>d. table_lookup fm h = Some d \<and> truthy_field d \<and> key_of d = k")
    case True
    then obtain d where d: "table_lookup fm h = Some d" "truthy_field d" "key_of d = k"
      by blast
    have "obj_get (forEach_headers fm cv row (hs @ [h]) c rd) k =
          cv (arr_get row (c + length hs)) d"
      using d snoc.prems(2) by (simp add: forEach_headers_append column_step_get)
    moreover have "table_lookup fm ((hs @ [h]) ! length hs) = Some d" using d by simp
    ultimately show ?thesis
      using d by (intro exI[of _ "length hs"] exI[of _ d]) auto
  next
    case False
    with snoc.prems
    have "\<exists>h \<in> set hs. \<exists>d. table_lookup fm h = Some d \<and> truthy_field d \<and> key_of d = k"
      by auto
    from snoc.IH[OF this snoc.prems(2)] obtain j d where
      j: "j < length hs" "table_lookup fm (hs ! j) = Some d" "truthy_field d" "key_of d = k"
      "\<forall>n. j < n \<and> n < length hs \<longrightarrow>
        (\<forall>d'. table_lookup fm (hs ! n) = Some d' \<and> truthy_field d' \<longrightarrow> key_of d' \<noteq> k)"
      "obj_get (forEach_headers fm cv row hs c rd) k = cv (arr_get row (c + j)) d"
      by blast
    have "obj_get (forEach_headers fm cv row (hs @ [h]) c rd) k = cv (arr_get row (c + j)) d"
      using False j(6)
      by (auto simp: forEach_headers_append column_step_get split: option.splits)
    moreover have "\<forall>n. j < n \<and> n < length (hs @ [h]) \<longrightarrow>
        (\<forall>d'. table_lookup fm ((hs @ [h]) ! n) = Some d' \<and> truthy_field d' \<longrightarrow> key_of d' \<noteq> k)"
      using j(5) False by (auto simp: nth_append less_Suc_eq)
    ultimately show ?thesis
      using j(1-4) by (intro exI[of _ j] exI[of _ d]) (auto simp: nth_append)
  qed
qed

lemma forEach_headers_cong_cells:
  "\<forall>i < length hs. arr_get row1 (c + i) = arr_get row2 (c + i) \<Longrightarrow>
   forEach_headers fm cv row1 hs c rd = forEach_headers fm cv row2 hs c rd"
proof (induction hs arbitrary: c rd)
  case Nil
  then show ?case by simp
next
  case (Cons h hs)
  from Cons.prems have here: "arr_get row1 c = arr_get row2 c" by force
  have "\<forall>i < length hs. arr_get row1 (Suc c + i) = arr_get row2 (Suc c + i)"
  proof (intro allI impI)
    fix i assume "i < length hs"
    then have "Suc i < length (h # hs)" by simp
    with Cons.prems have "arr_get row1 (c + Suc i) = arr_get row2 (c + Suc i)" by blast
    then show "arr_get row1 (Suc c + i) = arr_get row2 (Suc c + i)" by simp
  qed
  moreover have "column_step fm cv row1 rd h c = column_step fm cv row2 rd h c"
    using here by (simp add: column_step_def split: option.splits)
  ultimately show ?case
    using Cons.IH[of "Suc c"] by simp
qed

lemma map_row_empty_headers: "map_row fm cv [] row = []"
  by (simp add: map_row_def)

lemma keep_item_empty: "keep_item []"
  by (simp add: keep_item_def obj_get_def)

lemma map_row_keys:
  "set (obj_keys (map_row fm cv headers row)) =
   {k. \<exists>h \<in> set headers. \<exists>d. table_lookup fm h = Some d \<and> truthy_field d \<and> key_of d = k \<and>
         k \<noteq> ''__proto__''}"
  unfolding map_row_def forEach_headers_keys by (simp add: obj_keys_def)


lemma map_row_cong_cells:
  "\<forall>i < length headers. arr_get row1 i = arr_get row2 i \<Longrightarrow>
   map_row fm cv headers row1 = map_row fm cv headers row2"
  using forEach_headers_cong_cells[of headers row1 0 row2 fm cv "[]"] by (simp add: map_row_def)

lemma mapped_rows_nth:
  "k < length rows \<Longrightarrow> k < 10 \<Longrightarrow>
   mapped_rows fm cv headers rows ! k = map_row fm cv headers (rows ! k)"
  by (simp add: mapped_rows_def)

lemma mapRows_retains:
  "set (mapRows fm cv headers rows) =
   {item \<in> set (mapped_rows fm cv headers rows). keep_item item}"
  by (auto simp: mapRows_def)

lemma mapRows_item_values:
  "item \<in> set (mapRows fm cv headers rows) \<Longrightarrow>
   obj_get item ''purchasePrice'' \<noteq> PNull \<and> obj_get item ''purchasePrice'' \<noteq> PNum 0 \<and>
   obj_get item ''taxRate'' \<noteq> PNull \<and> obj_get item ''taxRate'' \<noteq> PNum 0"
  by (simp add: mapRows_def keep_item_def)

text \<open>The definitions a concrete run of the mapper unfolds.\<close>

lemmas eval_defs = sample_headers_def map_row_def column_step_def materials_fieldMapping_def
  table_lookup_def object_prototype_members_def truthy_str_def arr_get_def keep_item_def
  obj_get_def mapRows_def mapped_rows_def numeric_field_def obj_keys_def obj_set_def
  is_array_index_def digit_of_def

text \<open>The first scenario of the spec: of the three rows only the first is retained.\<close>

lemma spec_scenario:
  "mapRows materials_fieldMapping materials_convertValue sample_headers
     [[JStr ''A1'', JStr ''Widget'', JNum 10, JNum (13 / 100)],
      [JStr ''A2'', JStr ''Gadget'', JStr [], JNum (1 / 10)],
      [JStr ''A3'', JStr ''Gizmo'', JNum 5, JNum 0]] =
   [[(''productCode'', PStr ''A1''), (''productName'', PStr ''Widget''),
     (''purchasePrice'', PNum 10), (''taxRate'', PNum (13 / 100))]]"
  by (simp add: eval_defs trim_def parse_number_def)

section \<open>The heap run computes the mapper\<close>

lemma get_arr_append: "get_arr h v = Some xs \<Longrightarrow> get_arr (h @ zs) v = Some xs"
  by (auto simp: get_arr_def nth_append split: jsval.splits if_splits cell.splits)

lemma get_obj_append: "get_obj h v = Some ob \<Longrightarrow> get_obj (h @ zs) v = Some ob"
  by (auto simp: get_obj_def nth_append split: jsval.splits if_splits cell.splits)

lemma get_arr_update_obj:
  "get_obj h (JRef a) = Some ob \<Longrightarrow> get_arr (h[a := Obj ob']) v = get_arr h v"
  by (cases v) (auto simp: get_arr_def get_obj_def nth_list_update split: if_splits cell.splits)

lemma get_obj_update_same:
  "get_obj h (JRef a) = Some ob \<Longrightarrow> get_obj (h[a := Obj ob']) (JRef a) = Some ob'"
  by (auto simp: get_obj_def split: if_splits cell.splits)

lemma update_same_obj:
  "get_obj h (JRef a) = Some ob \<Longrightarrow> h[a := Obj ob] = h"
  by (auto simp: get_obj_def list_update_same_conv split: if_splits cell.splits)

lemma column_callback_eq:
  assumes "get_arr h row = Some cells" and "get_obj h (JRef rd) = Some ob"
  shows "column_callback fm cv row (JRef rd) header colIndex h =
         Some (h[rd := Obj (column_step fm cv cells ob header colIndex)])"
  using assms
  by (simp add: column_callback_def column_step_def set_prop_def update_same_obj
      split: option.splits)

lemma forEach_from_columns:
  assumes "get_arr h headers = Some hs" and "get_arr h row = Some cells"
    and "get_obj h (JRef rd) = Some ob" and "i + n = length hs"
  shows "forEach_from (column_callback fm cv row (JRef rd)) headers n i h =
         Some (h[rd := Obj (forEach_headers fm cv cells (drop i hs) i ob)])"
  using assms
proof (induction n arbitrary: i h ob)
  case 0
  then show ?case by (simp add: update_same_obj)
next
  case (Suc n)
  let ?ob' = "column_step fm cv cells ob (hs ! i) i"
  let ?h' = "h[rd := Obj ?ob']"
  from Suc.prems(4) have i: "i < length hs" by simp
  have step: "column_callback fm cv row (JRef rd) (hs ! i) i h = Some ?h'"
    using Suc.prems(2,3) by (rule column_callback_eq)
  have 1: "get_arr ?h' headers = Some hs"
    using Suc.prems(1,3) by (simp add: get_arr_update_obj)
  have 2: "get_arr ?h' row = Some cells"
    using Suc.prems(2,3) by (simp add: get_arr_update_obj)
  have 3: "get_obj ?h' (JRef rd) = Some ?ob'"
    using Suc.prems(3) by (rule get_obj_update_same)
  have 4: "Suc i + n = length hs" using Suc.prems(4) by simp
  have hole: "hs ! i = Hole \<Longrightarrow> ?h' = h"
    using Suc.prems(3) by (simp add: column_step_def table_lookup_hole update_same_obj)
  have "forEach_from (column_callback fm cv row (JRef rd)) headers (Suc n) i h =
        forEach_from (column_callback fm cv row (JRef rd)) headers n (Suc i) ?h'"
    using Suc.prems(1) i step hole by simp
  also have "\<dots> = Some (?h'[rd := Obj (forEach_headers fm cv cells (drop (Suc i) hs) (Suc i) ?ob')])"
    by (rule Suc.IH[OF 1 2 3 4])
  also have "\<dots> = Some (h[rd := Obj (forEach_headers fm cv cells (drop i hs) i ob)])"
    using i by (simp add: Cons_nth_drop_Suc[symmetric])
  finally show ?case .
qed

lemma row_callback_eq:
  assumes "get_arr h headers = Some hs" and "get_arr h row = Some cells"
  shows "row_callback fm cv headers row rowIndex h =
         Some (JRef (length h), h @ [Obj (map_row fm cv hs cells)])"
proof -
  let ?h1 = "h @ [Obj []]"
  have 1: "get_arr ?h1 headers = Some hs" using assms(1) by (rule get_arr_append)
  have 2: "get_arr ?h1 row = Some cells" using assms(2) by (rule get_arr_append)
  have 3: "get_obj ?h1 (JRef (length h)) = Some []" by (simp add: get_obj_def)
  have "forEach_from (column_callback fm cv row (JRef (length h))) headers (length hs) 0 ?h1 =
        Some (?h1[length h := Obj (forEach_headers fm cv cells (drop 0 hs) 0 [])])"
    by (rule forEach_from_columns[OF 1 2 3]) simp
  then have "js_forEach (column_callback fm cv row (JRef (length h))) headers ?h1 =
        Some (h @ [Obj (map_row fm cv hs cells)])"
    using 1 by (simp add: js_forEach_def map_row_def)
  then show ?thesis
    by (simp add: row_callback_def alloc_def)
qed

lemma map_from_rows:
  assumes "get_arr h arr = Some refs" and "get_arr h headers = Some hs"
    and "length rs = length refs"
    and "\<forall>k < length refs. get_arr h (refs ! k) = Some (rs ! k)"
    and "i + n = length refs"
  shows "map_from (row_callback fm cv headers) arr n i acc h =
         Some (acc @ map JRef [length h ..< length h + n],
               h @ map (\<lambda>r. Obj (map_row fm cv hs r)) (drop i rs))"
  using assms
proof (induction n arbitrary: i acc h)
  case 0
  then show ?case by simp
next
  case (Suc n)
  let ?h' = "h @ [Obj (map_row fm cv hs (rs ! i))]"
  from Suc.prems(5) have i: "i < length refs" by simp
  have cell: "get_arr h (refs ! i) = Some (rs ! i)" using Suc.prems(4) i by blast
  have step: "row_callback fm cv headers (refs ! i) i h = Some (JRef (length h), ?h')"
    using row_callback_eq[OF Suc.prems(2) cell] by simp
  have present: "refs ! i \<noteq> Hole"
    using cell by (auto simp: get_arr_def)
  have 1: "get_arr ?h' arr = Some refs" using Suc.prems(1) by (rule get_arr_append)
  have 2: "get_arr ?h' headers = Some hs" using Suc.prems(2) by (rule get_arr_append)
  have 4: "\<forall>k < length refs. get_arr ?h' (refs ! k) = Some (rs ! k)"
    using Suc.prems(4) by (simp add: get_arr_append)
  have 5: "Suc i + n = length refs" using Suc.prems(5) by simp
  have "map_from (row_callback fm cv headers) arr (Suc n) i acc h =
        map_from (row_callback fm cv headers) arr n (Suc i) (acc @ [JRef (length h)]) ?h'"
    using Suc.prems(1) i step present by simp
  also have "\<dots> = Some ((acc @ [JRef (length h)]) @ map JRef [length ?h' ..< length ?h' + n],
               ?h' @ map (\<lambda>r. Obj (map_row fm cv hs r)) (drop (Suc i) rs))"
    by (rule Suc.IH[OF 1 2 Suc.prems(3) 4 5])
  also have "\<dots> = Some (acc @ map JRef [length h ..< length h + Suc n],
               h @ map (\<lambda>r. Obj (map_row fm cv hs r)) (drop i rs))"
    using i Suc.prems(3) by (simp add: upt_conv_Cons Cons_nth_drop_Suc[symmetric])
  finally show ?case .
qed

lemma filter_from_items:
  assumes "get_arr h arr = Some xs"
    and "\<forall>k < length xs. get_obj h (xs ! k) = Some (obs ! k)"
    and "length obs = length xs" and "i + n = length xs"
  shows "filter_from item_callback arr n i acc h =
         Some (acc @ map fst (filter (\<lambda>p. keep_item (snd p)) (drop i (zip xs obs))), h)"
  using assms
proof (induction n arbitrary: i acc)
  case 0
  then show ?case by simp
next
  case (Suc n)
  from Suc.prems(4) have i: "i < length xs" by simp
  have item: "item_callback (xs ! i) h = Some (keep_item (obs ! i), h)"
    using Suc.prems(2) i by (simp add: item_callback_def)
  have present: "xs ! i \<noteq> Hole"
    using Suc.prems(2) i by (auto simp: get_obj_def)
  have 4: "Suc i + n = length xs" using Suc.prems(4) by simp
  let ?acc' = "if keep_item (obs ! i) then acc @ [xs ! i] else acc"
  have d: "drop i (zip xs obs) = (xs ! i, obs ! i) # drop (Suc i) (zip xs obs)"
    using i Suc.prems(3) by (simp add: Cons_nth_drop_Suc[symmetric])
  have "filter_from item_callback arr (Suc n) i acc h =
        filter_from item_callback arr n (Suc i) ?acc' h"
    using Suc.prems(1) i item present by simp
  also have "\<dots> = Some (?acc' @ map fst (filter (\<lambda>p. keep_item (snd p)) (drop (Suc i) (zip xs obs))), h)"
    by (rule Suc.IH[OF Suc.prems(1,2,3) 4])
  also have "\<dots> = Some (acc @ map fst (filter (\<lambda>p. keep_item (snd p)) (drop i (zip xs obs))), h)"
    using i by (simp add: d)
  finally show ?case .
qed

lemma those_map_Some:
  "length ys = length xs \<Longrightarrow> \<forall>k < length xs. f (xs ! k) = Some (ys ! k) \<Longrightarrow>
   those (map f xs) = Some ys"
proof (induction xs arbitrary: ys)
  case Nil
  then show ?case by simp
next
  case (Cons x xs)
  then obtain y ys' where ys: "ys = y # ys'" by (cases ys) auto
  from Cons.prems ys have "f x = Some y" by force
  moreover have "those (map f xs) = Some ys'"
  proof (rule Cons.IH)
    show "length ys' = length xs" using Cons.prems(1) ys by simp
    show "\<forall>k < length xs. f (xs ! k) = Some (ys' ! k)"
      using Cons.prems(2) ys by force
  qed
  ultimately show ?case using ys by simp
qed

lemma those_map_SomeD:
  "those (map f xs) = Some ys \<Longrightarrow>
   length ys = length xs \<and> (\<forall>k < length xs. f (xs ! k) = Some (ys ! k))"
proof (induction xs arbitrary: ys)
  case Nil
  then show ?case by simp
next
  case (Cons x xs)
  from Cons.prems obtain y ys' where y: "f x = Some y" "those (map f xs) = Some ys'" "ys = y # ys'"
    by (auto split: option.splits)
  from Cons.IH[OF y(2)] have "length ys' = length xs" "\<forall>k < length xs. f (xs ! k) = Some (ys' ! k)"
    by simp_all
  with y show ?case by (auto simp: nth_Cons split: nat.splits)
qed

lemma those_map_pairs:
  "\<forall>p \<in> set zs. f (fst p) = Some (snd p) \<Longrightarrow> those (map f (map fst zs)) = Some (map snd zs)"
  by (induction zs) simp_all

lemma get_rowsD:
  assumes "get_rows h rows = Some rs"
  obtains refs where "get_arr h rows = Some refs" and "length rs = length refs"
    and "\<forall>k < length refs. get_arr h (refs ! k) = Some (rs ! k)"
proof -
  from assms obtain refs where r: "get_arr h rows = Some refs"
    and t: "those (map (get_arr h) refs) = Some rs"
    by (auto simp: get_rows_def split: option.splits)
  from those_map_SomeD[OF t] r that show thesis by blast
qed

lemma get_rows_append:
  assumes "get_rows h rows = Some rs"
  shows "get_rows (h @ zs) rows = Some rs"
proof -
  from assms obtain refs where r: "get_arr h rows = Some refs" "length rs = length refs"
    "\<forall>k < length refs. get_arr h (refs ! k) = Some (rs ! k)"
    by (rule get_rowsD)
  have "those (map (get_arr (h @ zs)) refs) = Some rs"
    using r(2,3) by (intro those_map_Some) (simp_all add: get_arr_append)
  then show ?thesis
    using r(1) by (simp add: get_rows_def get_arr_append)
qed

lemma mappedData_heap_run:
  assumes "get_arr h headers = Some hs" and "get_rows h rows = Some rs"
  shows "\<exists>out zs. mappedData_heap fm cv headers rows h = Some (out, h @ zs) \<and>
           get_objs (h @ zs) out = Some (mapRows fm cv hs rs)"
proof -
  from assms(2) obtain refs where refs: "get_arr h rows = Some refs" "length rs = length refs"
    "\<forall>k < length refs. get_arr h (refs ! k) = Some (rs ! k)"
    by (rule get_rowsD)
  define refs10 where "refs10 = take 10 refs"
  define rs10 where "rs10 = take 10 rs"
  define n where "n = length refs10"
  define h1 where "h1 = h @ [Arr refs10]"
  define recs where "recs = map (map_row fm cv hs) rs10"
  define ys where "ys = map JRef [length h1 ..< length h1 + n]"
  define h2a where "h2a = h1 @ map Obj recs"
  define h2 where "h2 = h2a @ [Arr ys]"
  define kept where "kept = filter (\<lambda>p. keep_item (snd p)) (zip ys recs)"
  define h3 where "h3 = h2 @ [Arr (map fst kept)]"
  have len10: "length rs10 = n" "length recs = n" "length ys = n"
    using refs(2) by (simp_all add: rs10_def n_def refs10_def recs_def ys_def)
  \<comment> \<open>the slice\<close>
  have slice: "js_slice0 rows 10 h = Some (JRef (length h), h1)"
    using refs(1) by (simp add: js_slice0_def alloc_def h1_def refs10_def)
  have s1: "get_arr h1 (JRef (length h)) = Some refs10"
    by (simp add: get_arr_def h1_def)
  have s2: "get_arr h1 headers = Some hs"
    unfolding h1_def using assms(1) by (rule get_arr_append)
  have s3: "\<forall>k < length refs10. get_arr h1 (refs10 ! k) = Some (rs10 ! k)"
    unfolding h1_def using refs(3) by (simp add: refs10_def rs10_def get_arr_append)
  \<comment> \<open>the map\<close>
  have "map_from (row_callback fm cv headers) (JRef (length h)) n 0 [] h1 =
        Some ([] @ map JRef [length h1 ..< length h1 + n],
              h1 @ map (\<lambda>r. Obj (map_row fm cv hs r)) (drop 0 rs10))"
    by (rule map_from_rows[OF s1 s2 _ s3]) (simp_all add: len10 n_def)
  then have loop: "map_from (row_callback fm cv headers) (JRef (length h)) n 0 [] h1 =
        Some (ys, h2a)"
    by (simp add: ys_def recs_def comp_def h2a_def)
  have mapped: "js_map (row_callback fm cv headers) (JRef (length h)) h1 =
        Some (JRef (length h2a), h2)"
    using s1 loop by (simp add: js_map_def alloc_def h2_def n_def)
  have m1: "get_arr h2 (JRef (length h2a)) = Some ys"
    by (simp add: get_arr_def h2_def)
  have m2: "\<forall>k < length ys. get_obj h2 (ys ! k) = Some (recs ! k)"
  proof (intro allI impI)
    fix k assume "k < length ys"
    then have k: "k < n" by (simp add: len10)
    then have "ys ! k = JRef (length h1 + k)" by (simp add: ys_def)
    moreover have "get_obj h2a (JRef (length h1 + k)) = Some (recs ! k)"
      using k by (simp add: get_obj_def len10 nth_append h2a_def)
    ultimately show "get_obj h2 (ys ! k) = Some (recs ! k)"
      by (simp add: h2_def get_obj_append)
  qed
  \<comment> \<open>the filter\<close>
  have "filter_from item_callback (JRef (length h2a)) (length ys) 0 [] h2 =
        Some ([] @ map fst (filter (\<lambda>p. keep_item (snd p)) (drop 0 (zip ys recs))), h2)"
    by (rule filter_from_items[OF m1 m2]) (simp_all add: len10)
  then have filtered: "js_filter item_callback (JRef (length h2a)) h2 =
        Some (JRef (length h2), h3)"
    using m1 by (simp add: js_filter_def alloc_def h3_def kept_def)
  have run: "mappedData_heap fm cv headers rows h = Some (JRef (length h2), h3)"
    by (simp add: mappedData_heap_def slice mapped filtered)
  \<comment> \<open>reading the result back\<close>
  have "\<forall>p \<in> set kept. get_obj h3 (fst p) = Some (snd p)"
  proof
    fix p assume "p \<in> set kept"
    then have "p \<in> set (zip ys recs)" by (simp add: kept_def)
    then have "\<exists>k. ys ! k = fst p \<and> recs ! k = snd p \<and> k < length ys \<and> k < length recs"
      by (simp add: in_set_zip)
    then obtain k where "k < length ys" "ys ! k = fst p" "recs ! k = snd p"
      by blast
    with m2 have "get_obj h2 (fst p) = Some (snd p)" by auto
    then show "get_obj h3 (fst p) = Some (snd p)"
      unfolding h3_def by (rule get_obj_append)
  qed
  then have "those (map (get_obj h3) (map fst kept)) = Some (map snd kept)"
    by (rule those_map_pairs)
  moreover have "map snd kept = filter keep_item recs"
    by (simp add: kept_def filter_map[symmetric, unfolded comp_def] len10)
  moreover have "recs = mapped_rows fm cv hs rs"
    by (simp add: recs_def rs10_def mapped_rows_def)
  moreover have "get_arr h3 (JRef (length h2)) = Some (map fst kept)"
    by (simp add: get_arr_def h3_def)
  ultimately have readback: "get_objs h3 (JRef (length h2)) = Some (mapRows fm cv hs rs)"
    by (simp add: get_objs_def mapRows_def)
  have "h3 = h @ ([Arr refs10] @ map Obj recs @ [Arr ys] @ [Arr (map fst kept)])"
    by (simp add: h3_def h2_def h2a_def h1_def)
  with run readback show ?thesis by metis
qed


text \<open>
  What holds of the headers without entry: a header whose lookup gives \<^verbatim>\<open>undefined\<close> leaves
  the record as it is, and every key of an output record is the key of what the lookup
  gives for some header of the header row.
\<close>

lemma every_key_from_lookup:
  "item \<in> set (mapRows fm cv headers rows) \<Longrightarrow> k \<in> set (obj_keys item) \<Longrightarrow>
   \<exists>h \<in> set headers. \<exists>d. table_lookup fm h = Some d \<and> truthy_field d \<and> key_of d = k"
proof -
  assume "item \<in> set (mapRows fm cv headers rows)" and k: "k \<in> set (obj_keys item)"
  then obtain r where "item = map_row fm cv headers r"
    by (auto simp: mapRows_def mapped_rows_def)
  with k have "k \<in> {k. \<exists>h \<in> set headers. \<exists>d. table_lookup fm h = Some d \<and>
      truthy_field d \<and> key_of d = k \<and> k \<noteq> ''__proto__''}"
    by (simp add: map_row_keys)
  then show ?thesis by blast
qed

section \<open>The claims about the mapper\<close>

text \<open>
  Claim C1: a mapped record is retained if and only if its purchase price is neither
  null, undefined nor 0 and its tax rate is neither null, undefined nor 0. The filter
  compares with \<^verbatim>\<open>!== null\<close> and \<^verbatim>\<open>!== 0\<close> only, and \<^verbatim>\<open>undefined !== null\<close> holds: a
  sheet with no purchase price column gives records whose \<^verbatim>\<open>purchasePrice\<close> is
  undefined, and the filter retains them. The comment above the filter says that only
  records whose purchase price and tax rate have a value are output. (That no retained
  record has a null or zero price or rate is \<open>mapRows_item_values\<close>.)
\<close>

theorem price_column_absent_record_retained:
  "mapRows materials_fieldMapping materials_convertValue
     [JStr ''product code'', JStr ''product name'', JStr ''tax rate'']
     [[JStr ''A1'', JStr ''Widget'', JNum (13 / 100)]] =
   [[(''productCode'', PStr ''A1''), (''productName'', PStr ''Widget''),
     (''taxRate'', PNum (13 / 100))]] \<and>
   obj_get [(''productCode'', PStr ''A1''), (''productName'', PStr ''Widget''),
     (''taxRate'', PNum (13 / 100))] ''purchasePrice'' = PUndefined"
  by (simp add: eval_defs trim_def)

text \<open>
  Claim C2: with an empty header row the output is the empty sequence, however many data
  rows there are. With no header no key is set, every record is the empty object, its
  purchase price and tax rate are undefined, and the filter retains it: the output is one
  empty record for each of the first ten data rows.
\<close>

theorem empty_header_row_keeps_every_row:
  "mapRows fm cv [] rows = replicate (min 10 (length rows)) []"
proof -
  have "mapped_rows fm cv [] rows = replicate (min 10 (length rows)) []"
    by (rule nth_equalityI) (simp_all add: mapped_rows_def map_row_empty_headers min.commute)
  then show ?thesis
    by (simp add: mapRows_def keep_item_empty)
qed

text \<open>
  Claim C3: the output has at most \<open>min 10 (length rows)\<close> records; only the first ten
  data rows are considered, so the rows after the tenth never change the output, and when
  all of the first ten rows pass the filter the output has exactly
  \<open>min 10 (length rows)\<close> records (ten, for twelve rows).
\<close>

theorem mapRows_first_ten_rows:
  "length (mapRows fm cv headers rows) \<le> min 10 (length rows) \<and>
   mapRows fm cv headers rows = mapRows fm cv headers (take 10 rows) \<and>
   (list_all (\<lambda>row. keep_item (map_row fm cv headers row)) (take 10 rows) \<longrightarrow>
      length (mapRows fm cv headers rows) = min 10 (length rows))"
proof (intro conjI impI)
  have "length (mapRows fm cv headers rows) \<le> length (mapped_rows fm cv headers rows)"
    by (simp add: mapRows_def)
  then show "length (mapRows fm cv headers rows) \<le> min 10 (length rows)"
    by (simp add: mapped_rows_def min.commute)
next
  show "mapRows fm cv headers rows = mapRows fm cv headers (take 10 rows)"
    by (simp add: mapRows_def mapped_rows_def)
next
  assume "list_all (\<lambda>row. keep_item (map_row fm cv headers row)) (take 10 rows)"
  then have "\<forall>item \<in> set (mapped_rows fm cv headers rows). keep_item item"
    by (auto simp: mapped_rows_def list_all_iff)
  then have "mapRows fm cv headers rows = mapped_rows fm cv headers rows"
    by (simp add: mapRows_def)
  then show "length (mapRows fm cv headers rows) = min 10 (length rows)"
    by (simp add: mapped_rows_def min.commute)
qed

theorem mapRows_first_ten_rows_witness:
  "length twelve_rows = 12 \<and>
   list_all (\<lambda>row. keep_item (map_row materials_fieldMapping materials_convertValue sample_headers row))
     (take 10 twelve_rows) \<and>
   length (mapRows materials_fieldMapping materials_convertValue sample_headers twelve_rows) = 10 \<and>
   mapRows materials_fieldMapping materials_convertValue sample_headers twelve_rows =
   mapRows materials_fieldMapping materials_convertValue sample_headers (take 10 twelve_rows)"
proof -
  have len: "length twelve_rows = 12" by (simp add: twelve_rows_def)
  have keep: "list_all (\<lambda>row. keep_item (map_row materials_fieldMapping materials_convertValue sample_headers row))
     (take 10 twelve_rows)"
    by (simp add: twelve_rows_def eval_defs)
  note t = mapRows_first_ten_rows[of materials_fieldMapping materials_convertValue sample_headers twelve_rows]
  from t keep
  have "length (mapRows materials_fieldMapping materials_convertValue sample_headers twelve_rows) =
      min 10 (length twelve_rows)"
    by blast
  with len
  have ten: "length (mapRows materials_fieldMapping materials_convertValue sample_headers twelve_rows) = 10"
    by simp
  from t have "mapRows materials_fieldMapping materials_convertValue sample_headers twelve_rows =
      mapRows materials_fieldMapping materials_convertValue sample_headers (take 10 twelve_rows)"
    by blast
  with len keep ten show ?thesis by blast
qed




text \<open>
  Claim C5: a header label with no entry in the mapping table never produces a key and
  never causes an error. The lookup of line 362 is a property read on the table, an
  ordinary object, and also finds what the table inherits from \<^verbatim>\<open>Object.prototype\<close>: for
  the header \<^verbatim>\<open>constructor\<close>, which the table has no entry for, it gives the function
  \<^verbatim>\<open>Object\<close>, the guard of line 363 lets it pass, and line 366 sets a key, the text of
  the function, in the record of every row.
\<close>

theorem inherited_member_sets_key:
  "materials_fieldMapping (JStr ''constructor'') = None \<and>
   obj_keys (map_row materials_fieldMapping cv [JStr ''constructor''] row) =
     [''function Object() { [native code] }''] \<and>
   mapRows materials_fieldMapping materials_convertValue
     [JStr ''constructor'', JStr ''purchase price'', JStr ''tax rate'']
     [[JStr ''x'', JNum 10, JNum (13 / 100)]] =
   [[(''function Object() { [native code] }'', PStr ''x''),
     (''purchasePrice'', PNum 10), (''taxRate'', PNum (13 / 100))]]"
  by (simp add: eval_defs trim_def)

text \<open>
  Claim C9: for each of the first ten rows the record before the filter has a key for
  every header label of the header row that has an entry in the mapping table. The guard
  \<^verbatim>\<open>if (dbField)\<close> tests truthiness, and the empty string is falsy: an entry whose field
  name is the empty string sets no key. Nor does an entry whose field name is
  \<^verbatim>\<open>__proto__\<close>: the assignment of line 366 then runs the inherited setter and the record
  gets no property.
\<close>

theorem blank_field_name_sets_no_key:
  "table_lookup blank_name_mapping (JStr ''remark'') = Some (FieldName []) \<and>
   mapped_rows blank_name_mapping materials_convertValue [JStr ''remark''] [[JStr ''fragile'']] =
     [[]] \<and>
   table_lookup proto_name_mapping (JStr ''remark'') = Some (FieldName ''__proto__'') \<and>
   mapped_rows proto_name_mapping materials_convertValue [JStr ''remark''] [[JStr ''fragile'']] =
     [[]]"
  by (simp add: blank_name_mapping_def proto_name_mapping_def eval_defs)

text \<open>
  Claim C9 as amended: for each of the first ten rows the record before the filter has a
  key for every header label of the header row whose entry in the mapping table is a
  non-empty field name other than \<^verbatim>\<open>__proto__\<close>, whatever the row holds in that column (a
  row may be shorter than the header row): the step of that column sets the key to the
  conversion of the raw cell, undefined when missing, and the value in the record is that
  one unless a later column with the same key has set it again.
\<close>

theorem mapped_header_key_is_set:
  assumes "k < length rows" and "k < 10"
    and "i < length headers" and "table_lookup fm (headers ! i) = Some (FieldName f)"
    and "truthy_str f" and "f \<noteq> ''__proto__''"
  shows "f \<in> set (obj_keys (mapped_rows fm cv headers rows ! k)) \<and>
         obj_get (column_step fm cv (rows ! k) rowData (headers ! i) i) f =
           cv (arr_get (rows ! k) i) (FieldName f) \<and>
         (\<exists>j d. i \<le> j \<and> j < length headers \<and> table_lookup fm (headers ! j) = Some d \<and>
            key_of d = f \<and>
            obj_get (mapped_rows fm cv headers rows ! k) f = cv (arr_get (rows ! k) j) d)"
proof -
  note l = assms(4)
  have t: "truthy_field (FieldName f)" using assms(5) by simp
  have ex: "\<exists>h \<in> set headers. \<exists>d. table_lookup fm h = Some d \<and> truthy_field d \<and> key_of d = f"
    using assms(3) l t by (intro bexI[of _ "headers ! i"] exI[of _ "FieldName f"]) simp_all
  have rec: "mapped_rows fm cv headers rows ! k = map_row fm cv headers (rows ! k)"
    using assms(1,2) by (rule mapped_rows_nth)
  from forEach_headers_get_some[OF ex assms(6), of cv "rows ! k" 0 "[]"]
  obtain j d where j: "j < length headers" "table_lookup fm (headers ! j) = Some d"
    "key_of d = f"
    "\<forall>n. j < n \<and> n < length headers \<longrightarrow>
       (\<forall>d'. table_lookup fm (headers ! n) = Some d' \<and> truthy_field d' \<longrightarrow> key_of d' \<noteq> f)"
    "obj_get (map_row fm cv headers (rows ! k)) f = cv (arr_get (rows ! k) j) d"
    by (auto simp: map_row_def)
  have "i \<le> j"
  proof (rule ccontr)
    assume "\<not> i \<le> j"
    then have "j < i" by simp
    with j(4) assms(3) l t show False by auto
  qed
  moreover have "f \<in> set (obj_keys (map_row fm cv headers (rows ! k)))"
    using ex assms(6) by (simp add: map_row_keys)
  moreover have "obj_get (column_step fm cv (rows ! k) rowData (headers ! i) i) f =
      cv (arr_get (rows ! k) i) (FieldName f)"
    using l t assms(6) by (simp add: column_step_get)
  ultimately show ?thesis
    using j rec by auto
qed

theorem mapped_header_key_is_set_witness:
  "''taxRate'' \<in> set (obj_keys (mapped_rows materials_fieldMapping materials_convertValue
       sample_headers [[JStr ''A1'', JStr ''Widget'']] ! 0)) \<and>
   obj_get (mapped_rows materials_fieldMapping materials_convertValue
       sample_headers [[JStr ''A1'', JStr ''Widget'']] ! 0) ''taxRate'' =
     materials_convertValue JUndefined (FieldName ''taxRate'')"
proof -
  have 1: "(0::nat) < length [[JStr ''A1'', JStr ''Widget'']]" by simp
  have 2: "(0::nat) < 10" by simp
  have 3: "3 < length sample_headers" by (simp add: sample_headers_def)
  have 4: "table_lookup materials_fieldMapping (sample_headers ! 3) = Some (FieldName ''taxRate'')"
    by (simp add: sample_headers_def table_lookup_def materials_fieldMapping_def)
  have 5: "truthy_str ''taxRate''" by (simp add: truthy_str_def)
  have 6: "''taxRate'' \<noteq> ''__proto__''" by simp
  have 7: "obj_get (mapped_rows materials_fieldMapping materials_convertValue
       sample_headers [[JStr ''A1'', JStr ''Widget'']] ! 0) ''taxRate'' =
     materials_convertValue JUndefined (FieldName ''taxRate'')"
    by (simp add: eval_defs trim_def)
  show ?thesis
    using mapped_header_key_is_set[where k = 0 and rows = "[[JStr ''A1'', JStr ''Widget'']]"
        and i = 3 and headers = sample_headers and fm = materials_fieldMapping
        and f = "''taxRate''" and cv = materials_convertValue] 1 2 3 4 5 6 7
    by blast
qed

text \<open>
  Claim C10: the output depends only on the cells of each data row below the header
  length. Two sequences of data rows of the same length that agree, row by row, on every
  column index below the length of the header row give the same output.
\<close>

theorem mapRows_reads_header_columns_only:
  assumes "length rows1 = length rows2"
    and "\<forall>k < length rows1. \<forall>i < length headers.
           arr_get (rows1 ! k) i = arr_get (rows2 ! k) i"
  shows "mapRows fm cv headers rows1 = mapRows fm cv headers rows2"
proof -
  have "mapped_rows fm cv headers rows1 = mapped_rows fm cv headers rows2"
  proof (rule nth_equalityI)
    show "length (mapped_rows fm cv headers rows1) = length (mapped_rows fm cv headers rows2)"
      using assms(1) by (simp add: mapped_rows_def)
  next
    fix k assume "k < length (mapped_rows fm cv headers rows1)"
    then have k: "k < length rows1" "k < 10" by (simp_all add: mapped_rows_def)
    then have "map_row fm cv headers (rows1 ! k) = map_row fm cv headers (rows2 ! k)"
      using assms(2) by (intro map_row_cong_cells) blast
    then show "mapped_rows fm cv headers rows1 ! k = mapped_rows fm cv headers rows2 ! k"
      using k assms(1) by (simp add: mapped_rows_nth)
  qed
  then show ?thesis by (simp add: mapRows_def)
qed

theorem mapRows_reads_header_columns_only_witness:
  "mapRows materials_fieldMapping materials_convertValue sample_headers
     [[JStr ''A1'', JStr ''Widget'', JNum 10, JNum (13 / 100), JStr ''trailing'', JNum 0],
      [JStr ''A2'', JStr ''Gadget'', JNum 5]] =
   mapRows materials_fieldMapping materials_convertValue sample_headers
     [[JStr ''A1'', JStr ''Widget'', JNum 10, JNum (13 / 100)],
      [JStr ''A2'', JStr ''Gadget'', JNum 5, JUndefined, JNull]]"
proof -
  let ?r1 = "[[JStr ''A1'', JStr ''Widget'', JNum 10, JNum (13 / 100), JStr ''trailing'', JNum 0],
      [JStr ''A2'', JStr ''Gadget'', JNum 5]]"
  let ?r2 = "[[JStr ''A1'', JStr ''Widget'', JNum 10, JNum (13 / 100)],
      [JStr ''A2'', JStr ''Gadget'', JNum 5, JUndefined, JNull]]"
  have 1: "length ?r1 = length ?r2" by simp
  have 2: "\<forall>k < length ?r1. \<forall>i < length sample_headers. arr_get (?r1 ! k) i = arr_get (?r2 ! k) i"
    by (simp add: sample_headers_def arr_get_def less_Suc_eq nth_Cons' numeral_2_eq_2 numeral_3_eq_3)
  show ?thesis
    by (rule mapRows_reads_header_columns_only[OF 1 2])
qed

section \<open>The claims about the handler\<close>

text \<open>What the branches of the handler answer, and which of them delete the upload.\<close>

lemma http_status_files_undefined:
  "http_status (parseExcel fm cv xlsx_parse FilesUndefined fs) = 500 \<and>
   disk (parseExcel fm cv xlsx_parse FilesUndefined fs) = fs"
  by (simp add: parseExcel_def http_status_def catch_branch_def cleanup_def)

lemma http_status_no_file:
  "http_status (parseExcel fm cv xlsx_parse (Files None) fs) = 400 \<and>
   ctx_body (parseExcel fm cv xlsx_parse (Files None) fs) = Some (ErrorObject False PleaseUploadFile)"
  by (simp add: parseExcel_def http_status_def)

lemma http_status_invalid_type:
  "\<not> isValidExcel file \<Longrightarrow>
   http_status (parseExcel fm cv xlsx_parse (Files (Some file)) fs) = 400 \<and>
   ctx_body (parseExcel fm cv xlsx_parse (Files (Some file)) fs) =
     Some (ErrorObject False InvalidExcelFile) \<and>
   disk (parseExcel fm cv xlsx_parse (Files (Some file)) fs) = fs"
  by (simp add: parseExcel_def http_status_def)

lemma http_status_too_large:
  "isValidExcel file \<Longrightarrow> maxSize < file_size file \<Longrightarrow>
   http_status (parseExcel fm cv xlsx_parse (Files (Some file)) fs) = 400 \<and>
   ctx_body (parseExcel fm cv xlsx_parse (Files (Some file)) fs) =
     Some (ErrorObject False (FileTooLarge 10)) \<and>
   disk (parseExcel fm cv xlsx_parse (Files (Some file)) fs) = fs"
  by (simp add: parseExcel_def http_status_def maxSize_def)

lemma http_status_parse_error:
  assumes "isValidExcel file" and "file_size file \<le> maxSize"
    and "fs (filepath file) = Some bytes" and "xlsx_parse bytes = Inl msg"
  shows "http_status (parseExcel fm cv xlsx_parse (Files (Some file)) fs) = 500 \<and>
         ctx_body (parseExcel fm cv xlsx_parse (Files (Some file)) fs) =
           Some (ErrorObject False (ErrorMessage msg)) \<and>
         disk (parseExcel fm cv xlsx_parse (Files (Some file)) fs) = cleanup (Some (filepath file)) fs"
  using assms by (simp add: parseExcel_def http_status_def catch_branch_def)

lemma empty_sheet_response:
  assumes "isValidExcel file" and "file_size file \<le> maxSize"
    and "fs (filepath file) = Some bytes"
    and "xlsx_parse bytes = Inr workbook"
    and "workbook = [] \<or> data (hd workbook) = []"
  shows "ctx_status (parseExcel fm cv xlsx_parse (Files (Some file)) fs) = None \<and>
         ctx_body (parseExcel fm cv xlsx_parse (Files (Some file)) fs) =
           Some (ErrorObject False ExcelIsEmpty) \<and>
         disk (parseExcel fm cv xlsx_parse (Files (Some file)) fs) = fs"
  using assms by (auto simp: parseExcel_def split: list.splits)

lemma success_response:
  assumes "isValidExcel file" and "file_size file \<le> maxSize"
    and "fs (filepath file) = Some bytes"
    and "xlsx_parse bytes = Inr (sheet # others)" and "data sheet = headers # rows"
  shows "ctx_body (parseExcel fm cv xlsx_parse (Files (Some file)) fs) =
           Some (MappedData (mapRows fm cv headers rows)) \<and>
         disk (parseExcel fm cv xlsx_parse (Files (Some file)) fs) = cleanup (Some (filepath file)) fs"
  using assms by (simp add: parseExcel_def)

lemma cleanup_removes:
  "truthy_str p \<Longrightarrow> cleanup (Some p) fs p = None"
  by (simp add: cleanup_def)

text \<open>
  Claim C7: on every failure of the parse endpoint the body is a structured error object
  and the status is 400 for client input errors, the empty sheet among them, and 500 for
  internal failures. The branches for a missing file, an invalid type and an oversized
  file assign \<^verbatim>\<open>ctx.status = 400\<close>; the branch for an empty sheet (lines 343 to 350)
  assigns the body only, so the response goes out with status 200.
\<close>

theorem empty_sheet_status_not_400:
  "ctx_status (parseExcel materials_fieldMapping materials_convertValue parse_empty_sheet
      (Files (Some xlsx_upload)) [''uploads/upload_2.xlsx'' \<mapsto> ''bytes'']) = None \<and>
   ctx_body (parseExcel materials_fieldMapping materials_convertValue parse_empty_sheet
      (Files (Some xlsx_upload)) [''uploads/upload_2.xlsx'' \<mapsto> ''bytes'']) =
     Some (ErrorObject False ExcelIsEmpty) \<and>
   http_status (parseExcel materials_fieldMapping materials_convertValue parse_empty_sheet
      (Files (Some xlsx_upload)) [''uploads/upload_2.xlsx'' \<mapsto> ''bytes'']) = 200"
  by (simp add: parseExcel_def xlsx_upload_def isValidExcel_def allowedTypes_def maxSize_def
      parse_empty_sheet_def http_status_def)

text \<open>
  Claim C8: the temporary file of an upload is deleted on the success path and on every
  failure path, also when the request is rejected for its type or size. The variable
  \<^verbatim>\<open>tempFilePath\<close> is assigned at line 335, after the validation, and the early returns do
  not run the clean-up: below, an upload rejected for its type is still on disk when the
  handler is done.
\<close>

theorem rejected_upload_stays_on_disk:
  "http_status (parseExcel materials_fieldMapping materials_convertValue parse_two_rows
      (Files (Some text_upload)) [''uploads/upload_1.txt'' \<mapsto> ''bytes'']) = 400 \<and>
   disk (parseExcel materials_fieldMapping materials_convertValue parse_two_rows
      (Files (Some text_upload)) [''uploads/upload_1.txt'' \<mapsto> ''bytes'']) ''uploads/upload_1.txt'' =
     Some ''bytes''"
  by (simp add: parseExcel_def text_upload_def isValidExcel_def allowedTypes_def
      excel_extension_def lower_char_def ends_with_def http_status_def)

section \<open>The claim about purity\<close>

text \<open>
  Claim C6: the mapper is a pure, deterministic function of its inputs; two invocations
  with identical inputs produce identical output sequences, and no input is mutated. On
  every heap in which the header row is an array and the data rows are an array of
  arrays, the lines of the mapper run to the end, leave every cell that existed before
  as it was (they only append new cells: the slice, one object per row, the mapped and
  the filtered array), and return the records \<open>mapRows\<close> computes from the header row
  and the data rows alone; a second run, on the heap the first one left, returns the
  same records again.
\<close>

theorem mapper_is_pure:
  assumes "get_arr h headers = Some hs" and "get_rows h rows = Some rs"
  shows "\<exists>out h'. mappedData_heap fm cv headers rows h = Some (out, h') \<and>
           take (length h) h' = h \<and>
           get_objs h' out = Some (mapRows fm cv hs rs) \<and>
           (\<exists>out2 h''. mappedData_heap fm cv headers rows h' = Some (out2, h'') \<and>
              take (length h') h'' = h' \<and>
              get_objs h'' out2 = Some (mapRows fm cv hs rs))"
proof -
  from mappedData_heap_run[OF assms] obtain out zs where
    1: "mappedData_heap fm cv headers rows h = Some (out, h @ zs)"
       "get_objs (h @ zs) out = Some (mapRows fm cv hs rs)"
    by blast
  have "get_arr (h @ zs) headers = Some hs" using assms(1) by (rule get_arr_append)
  moreover have "get_rows (h @ zs) rows = Some rs" using assms(2) by (rule get_rows_append)
  ultimately obtain out2 zs2 where
    2: "mappedData_heap fm cv headers rows (h @ zs) = Some (out2, (h @ zs) @ zs2)"
       "get_objs ((h @ zs) @ zs2) out2 = Some (mapRows fm cv hs rs)"
    using mappedData_heap_run by blast
  have "take (length h) (h @ zs) = h" "take (length (h @ zs)) ((h @ zs) @ zs2) = h @ zs"
    by simp_all
  with 1 2 show ?thesis by blast
qed

theorem mapper_is_pure_witness:
  "get_arr sample_heap (JRef 0) = Some sample_headers \<and>
   (\<exists>out h'. mappedData_heap materials_fieldMapping materials_convertValue (JRef 0) (JRef 4)
        sample_heap = Some (out, h') \<and>
      take (length sample_heap) h' = sample_heap \<and>
      get_objs h' out =
        Some [[(''productCode'', PStr ''A1''), (''productName'', PStr ''Widget''),
               (''purchasePrice'', PNum 10), (''taxRate'', PNum (13 / 100))]])"
proof -
  let ?rs = "[[JStr ''A1'', JStr ''Widget'', JNum 10, JNum (13 / 100)],
     [JStr ''A2'', JStr ''Gadget'', JStr '''', JNum (1 / 10)],
     [JStr ''A3'', JStr ''Gizmo'', JNum 5, JNum 0]]"
  have 1: "get_arr sample_heap (JRef 0) = Some sample_headers"
    by (simp add: get_arr_def sample_heap_def sample_headers_def)
  have 2: "get_rows sample_heap (JRef 4) = Some ?rs"
    by (simp add: get_rows_def get_arr_def sample_heap_def)
  have 3: "mapRows materials_fieldMapping materials_convertValue sample_headers ?rs =
      [[(''productCode'', PStr ''A1''), (''productName'', PStr ''Widget''),
               (''purchasePrice'', PNum 10), (''taxRate'', PNum (13 / 100))]]"
    by (simp add: eval_defs trim_def parse_number_def)
  show ?thesis
    using mapper_is_pure[OF 1 2, of materials_fieldMapping materials_convertValue] 1
    unfolding 3 by blast
qed

end
